theory Spec2Isabelle
  imports Complex_Main "HOL-Library.Sublist"
begin

section \<open>The download-history store of \<open>historyManager.py\<close>\<close>

text \<open>
  The class \<open>HistoryManager\<close> keeps the list \<open>self.history\<close>, the page counter
  \<open>self.display_count\<close> and a JSON file. This theory embeds its data-handling methods
  (\<open>load_history\<close>, \<open>save_history\<close>, \<open>refresh_history_list\<close>, \<open>show_more_history\<close>,
  \<open>clear_history\<close>, \<open>delete_callback\<close>, \<open>add_to_history\<close>, \<open>export_history\<close>) as functions on
  an explicit state. The methods that only lay out, style or translate the widgets
  (\<open>_load_stylesheet\<close>, \<open>set_table_col_stretch\<close>, \<open>resizeEvent\<close>, \<open>set_language\<close>,
  \<open>show_toast_message\<close>, \<open>table_right_click\<close>) are not part of it.

  Conventions of the embedding:
  \<^item> \<open>self.history\<close> is whatever \<open>json.load\<close> returned, so it is a dynamically typed
    value (\<open>pyval\<close>); every Python exception that the methods can raise on such a value
    is a result \<open>Inl e\<close>.
  \<^item> A Python \<open>str\<close> is a \<open>string\<close>; a \<open>char\<close> stands for the code point of the same
    number, so the strings covered are those of code points below 256.
  \<^item> A JSON number is its exact rational value; the non-finite floats that \<open>json.load\<close>
    also accepts are not represented.
  \<^item> A \<open>dict\<close> is the list of its items in insertion order, the keys pairwise distinct
    (as \<open>json.load\<close> builds it).
  \<^item> The Qt widgets are reduced to what the methods hand to them: the rows of the table
    (the two values given to the cells of a row; fonts, colours and tooltips are left
    out) and the visibility of the empty-state label and of the load-more button.
    Whether a widget accepts a value that is not a \<open>str\<close> is outside the model: a result
    \<open>Inr\<close> says that the Python statements raise nothing, and the properties that state
    a return are about records whose fields are strings.
  \<^item> The file system is the environment: the content of the history file is a component
    of the state, and the outcome of a write is a parameter of the method that writes.
\<close>

subsection \<open>Python values and the operations the methods apply to them\<close>

datatype pyval =
    PNone
  | PBool bool
  | PNum rat
  | PStr string
  | PList "pyval list"
  | PDict "(string \<times> pyval) list"

datatype py_error = TypeError | AttributeError

text \<open>\<open>a == b\<close> on the values above.\<close>

fun py_eq :: "pyval \<Rightarrow> pyval \<Rightarrow> bool" where
  "py_eq PNone PNone = True"
| "py_eq (PBool a) (PBool b) = (a = b)"
| "py_eq (PBool a) (PNum r) = (r = of_bool a)"
| "py_eq (PNum r) (PBool a) = (r = of_bool a)"
| "py_eq (PNum r) (PNum s) = (r = s)"
| "py_eq (PStr s) (PStr t) = (s = t)"
| "py_eq (PList xs) (PList ys) = list_all2 py_eq xs ys"
| "py_eq (PDict a) (PDict b) =
     (length a = length b \<and> (\<forall>(k, v) \<in> set a. \<exists>(k', w) \<in> set b. k' = k \<and> py_eq v w))"
| "py_eq _ _ = False"

text \<open>\<open>str.isspace\<close> on one code point below 256, which decides what \<open>str.strip()\<close> removes.\<close>

definition is_space :: "char \<Rightarrow> bool" where
  "is_space c =
     (let n = (of_char c :: nat)
      in (9 \<le> n \<and> n \<le> 13) \<or> (28 \<le> n \<and> n \<le> 32) \<or> n = 133 \<or> n = 160)"

text \<open>\<open>s.strip()\<close>\<close>

definition strip :: "string \<Rightarrow> string" where
  "strip s = rev (dropWhile is_space (rev (dropWhile is_space s)))"

text \<open>\<open>str.lower\<close> on one code point below 256: A-Z and the upper-case letters of Latin-1.\<close>

definition lower_char :: "char \<Rightarrow> char" where
  "lower_char c =
     (let n = (of_char c :: nat)
      in if (65 \<le> n \<and> n \<le> 90) \<or> (192 \<le> n \<and> n \<le> 214) \<or> (216 \<le> n \<and> n \<le> 222)
         then char_of (n + 32) else c)"

text \<open>\<open>s.lower()\<close>\<close>

definition lower :: "string \<Rightarrow> string" where
  "lower s = map lower_char s"

text \<open>
  \<open>xs[-n:]\<close>: the start index \<open>-n\<close> counts from the end when it is negative and is
  clipped to the list; \<open>-0\<close> is \<open>0\<close>, the start of the list.
\<close>

definition py_slice_last :: "int \<Rightarrow> 'a list \<Rightarrow> 'a list" where
  "py_slice_last n xs =
     (let len = int (length xs);
          start = - n;
          lo = (if start < 0 then max (start + len) 0 else min start len)
      in drop (nat lo) xs)"

text \<open>
  The elements of a value that can be sliced: a list, or a \<open>str\<close> (its characters, each a
  \<open>str\<close> of length one). Slicing anything else raises (a \<open>dict\<close> raises \<open>TypeError\<close> for
  the unhashable slice, \<open>KeyError\<close> from Python 3.12 on).
\<close>

fun py_seq :: "pyval \<Rightarrow> py_error + pyval list" where
  "py_seq (PList xs) = Inr xs"
| "py_seq (PStr s) = Inr (map (\<lambda>c. PStr [c]) s)"
| "py_seq _ = Inl TypeError"

text \<open>The elements a \<open>for\<close> loop visits: as above, and the keys of a \<open>dict\<close>.\<close>

fun py_iter :: "pyval \<Rightarrow> py_error + pyval list" where
  "py_iter (PList xs) = Inr xs"
| "py_iter (PStr s) = Inr (map (\<lambda>c. PStr [c]) s)"
| "py_iter (PDict d) = Inr (map (\<lambda>kv. PStr (fst kv)) d)"
| "py_iter _ = Inl TypeError"

text \<open>\<open>item.get(k, dflt)\<close>: only a \<open>dict\<close> has the method.\<close>

fun dict_get :: "pyval \<Rightarrow> string \<Rightarrow> pyval \<Rightarrow> py_error + pyval" where
  "dict_get (PDict d) k dflt = Inr (case map_of d k of None \<Rightarrow> dflt | Some v \<Rightarrow> v)"
| "dict_get _ k dflt = Inl AttributeError"

text \<open>\<open>v.lower()\<close>: only a \<open>str\<close> has the method.\<close>

fun str_lower :: "pyval \<Rightarrow> py_error + string" where
  "str_lower (PStr s) = Inr (lower s)"
| "str_lower _ = Inl AttributeError"

subsection \<open>The state\<close>

definition MAX_VISIBLE :: int where
  "MAX_VISIBLE = 15"

text \<open>
  What the history file gives to \<open>load_history\<close>: it does not exist, or reading it raises
  (it cannot be opened or decoded, or it is not JSON), or \<open>json.load\<close> returns a value.
\<close>

datatype backing = Absent | Unreadable | Holds pyval

text \<open>
  The outcome of the write in \<open>save_history\<close>: the dump is written, or an exception is
  raised and the file is left as given (unchanged when it could not be opened, cut short
  otherwise).
\<close>

datatype write_result = Written | WriteFailed backing

record hm_state =
  history :: pyval
  display_count :: int
  search_bar_text :: string
  table_rows :: "(pyval \<times> pyval) list"
  empty_label_visible :: bool
  load_more_visible :: bool
  history_file :: backing

subsection \<open>\<open>save_history\<close>\<close>

definition save_history :: "write_result \<Rightarrow> hm_state \<Rightarrow> hm_state" where
  "save_history w st =
     (case w of
        Written \<Rightarrow> st\<lparr>history_file := Holds (history st)\<rparr>
      | WriteFailed left \<Rightarrow> st\<lparr>history_file := left\<rparr>)"

subsection \<open>\<open>refresh_history_list\<close>\<close>

text \<open>
  The condition of the list comprehension,
  \<open>query in item.get("url", "").lower() or query in item.get("status", "").lower()\<close>:
  the status is looked at only when the url does not match.
\<close>

definition item_matches :: "string \<Rightarrow> pyval \<Rightarrow> py_error + bool" where
  "item_matches query item =
     (case dict_get item ''url'' (PStr '''') of
        Inl e \<Rightarrow> Inl e
      | Inr u \<Rightarrow>
          (case str_lower u of
             Inl e \<Rightarrow> Inl e
           | Inr ul \<Rightarrow>
               if sublist query ul then Inr True
               else
                 (case dict_get item ''status'' (PStr '''') of
                    Inl e \<Rightarrow> Inl e
                  | Inr s \<Rightarrow>
                      (case str_lower s of
                         Inl e \<Rightarrow> Inl e
                       | Inr sl \<Rightarrow> Inr (sublist query sl)))))"

fun filter_items :: "string \<Rightarrow> pyval list \<Rightarrow> py_error + pyval list" where
  "filter_items query [] = Inr []"
| "filter_items query (item # items) =
     (case item_matches query item of
        Inl e \<Rightarrow> Inl e
      | Inr keep \<Rightarrow>
          (case filter_items query items of
             Inl e \<Rightarrow> Inl e
           | Inr rest \<Rightarrow> Inr (if keep then item # rest else rest)))"

text \<open>
  The filtered view \<open>show_items\<close>, which \<open>refresh_history_list\<close> (lines 176-183) and
  \<open>delete_callback\<close> (lines 246-253) compute with the same statements.
\<close>

definition show_items :: "hm_state \<Rightarrow> py_error + pyval list" where
  "show_items st =
     (let query = lower (strip (search_bar_text st))
      in case py_seq (history st) of
           Inl e \<Rightarrow> Inl e
         | Inr hs \<Rightarrow>
             (let page = rev (py_slice_last (display_count st) hs)
              in if query \<noteq> [] then filter_items query page else Inr page))"

text \<open>The loop that fills the table: one row per item, from its url and its status.\<close>

fun render_rows :: "pyval list \<Rightarrow> py_error + (pyval \<times> pyval) list" where
  "render_rows [] = Inr []"
| "render_rows (item # items) =
     (case dict_get item ''url'' (PStr '''') of
        Inl e \<Rightarrow> Inl e
      | Inr u \<Rightarrow>
          (case dict_get item ''status'' (PStr '''') of
             Inl e \<Rightarrow> Inl e
           | Inr s \<Rightarrow>
               (case render_rows items of
                  Inl e \<Rightarrow> Inl e
                | Inr rows \<Rightarrow> Inr ((u, s) # rows))))"

definition refresh_history_list :: "hm_state \<Rightarrow> py_error + hm_state" where
  "refresh_history_list st =
     (let query = lower (strip (search_bar_text st))
      in case show_items st of
           Inl e \<Rightarrow> Inl e
         | Inr items \<Rightarrow>
             if items = [] then
               Inr (st\<lparr>table_rows := [], empty_label_visible := True,
                        load_more_visible := False\<rparr>)
             else
               (case render_rows items of
                  Inl e \<Rightarrow> Inl e
                | Inr rows \<Rightarrow>
                    (case py_seq (history st) of
                       Inl e \<Rightarrow> Inl e
                     | Inr hs \<Rightarrow>
                         Inr (st\<lparr>table_rows := rows, empty_label_visible := False,
                                  load_more_visible :=
                                    (display_count st < int (length hs) \<and> query = [])\<rparr>))))"

subsection \<open>\<open>load_history\<close>\<close>

definition load_history :: "hm_state \<Rightarrow> py_error + hm_state" where
  "load_history st =
     refresh_history_list
       (st\<lparr>history := (case history_file st of Holds v \<Rightarrow> v | _ \<Rightarrow> PList []),
           display_count := MAX_VISIBLE\<rparr>)"

subsection \<open>\<open>delete_callback\<close>\<close>

text \<open>
  The test \<open>h.get("url") == to_del.get("url") and h.get("status") == to_del.get("status")\<close>;
  \<open>get\<close> without a default gives \<open>None\<close> for a missing key.
\<close>

definition same_url_status :: "pyval \<Rightarrow> pyval \<Rightarrow> py_error + bool" where
  "same_url_status h to_del =
     (case dict_get h ''url'' PNone of
        Inl e \<Rightarrow> Inl e
      | Inr hu \<Rightarrow>
          (case dict_get to_del ''url'' PNone of
             Inl e \<Rightarrow> Inl e
           | Inr du \<Rightarrow>
               if \<not> py_eq hu du then Inr False
               else
                 (case dict_get h ''status'' PNone of
                    Inl e \<Rightarrow> Inl e
                  | Inr hs \<Rightarrow>
                      (case dict_get to_del ''status'' PNone of
                         Inl e \<Rightarrow> Inl e
                       | Inr ds \<Rightarrow> Inr (py_eq hs ds)))))"

text \<open>
  The loop \<open>for i, h in enumerate(self.history)\<close> with its \<open>pop(i)\<close> and \<open>break\<close>: the list
  without its first matching element, unchanged when nothing matches.
\<close>

fun pop_first_match :: "pyval \<Rightarrow> pyval list \<Rightarrow> py_error + pyval list" where
  "pop_first_match to_del [] = Inr []"
| "pop_first_match to_del (h # hs) =
     (case same_url_status h to_del of
        Inl e \<Rightarrow> Inl e
      | Inr True \<Rightarrow> Inr hs
      | Inr False \<Rightarrow>
          (case pop_first_match to_del hs of
             Inl e \<Rightarrow> Inl e
           | Inr hs' \<Rightarrow> Inr (h # hs')))"

definition delete_callback :: "write_result \<Rightarrow> int \<Rightarrow> hm_state \<Rightarrow> py_error + hm_state" where
  "delete_callback w view_idx st =
     (case show_items st of
        Inl e \<Rightarrow> Inl e
      | Inr items \<Rightarrow>
          if 0 \<le> view_idx \<and> view_idx < int (length items) then
            (let to_del = items ! nat view_idx
             in case py_seq (history st) of
                  Inl e \<Rightarrow> Inl e
                | Inr hs \<Rightarrow>
                    (case pop_first_match to_del hs of
                       Inl e \<Rightarrow> Inl e
                     | Inr hs' \<Rightarrow>
                         (let st1 = save_history w (st\<lparr>history := PList hs'\<rparr>);
                              st2 = st1\<lparr>display_count :=
                                          min (display_count st1) (int (length hs'))\<rparr>
                          in refresh_history_list st2)))
          else Inr st)"

subsection \<open>\<open>export_history\<close>\<close>

text \<open>
  A replacement field of the f-string: a \<open>str\<close> is inserted as it is; the text of any
  other value is that of the builtin \<open>format\<close>, taken as the parameter \<open>py_str\<close>.
\<close>

definition format_field :: "(pyval \<Rightarrow> string) \<Rightarrow> pyval \<Rightarrow> string" where
  "format_field py_str v = (case v of PStr s \<Rightarrow> s | _ \<Rightarrow> py_str v)"

definition export_block :: "(pyval \<Rightarrow> string) \<Rightarrow> pyval \<Rightarrow> py_error + string" where
  "export_block py_str item =
     (case dict_get item ''url'' (PStr '''') of
        Inl e \<Rightarrow> Inl e
      | Inr u \<Rightarrow>
          (case dict_get item ''status'' (PStr '''') of
             Inl e \<Rightarrow> Inl e
           | Inr s \<Rightarrow>
               Inr (''URL: '' @ format_field py_str u @ [CHR 0x0A] @
                    ''Status: '' @ format_field py_str s @ [CHR 0x0A, CHR 0x0A])))"

text \<open>The text that the loop writes, block after block, to the opened file.\<close>

fun export_text :: "(pyval \<Rightarrow> string) \<Rightarrow> pyval list \<Rightarrow> py_error + string" where
  "export_text py_str [] = Inr []"
| "export_text py_str (item # items) =
     (case export_block py_str item of
        Inl e \<Rightarrow> Inl e
      | Inr b \<Rightarrow>
          (case export_text py_str items of
             Inl e \<Rightarrow> Inl e
           | Inr rest \<Rightarrow> Inr (b @ rest)))"

text \<open>
  The result of \<open>export_history\<close>: the dialog was cancelled (empty path) and nothing is
  written; or the file holds the text and the information box is shown; or an exception
  was caught and the warning box is shown. \<open>io_ok\<close> says whether opening and writing the
  chosen file succeed.
\<close>

datatype export_result = Cancelled | Exported string | ExportFailed

definition export_history :: "(pyval \<Rightarrow> string) \<Rightarrow> string \<Rightarrow> bool \<Rightarrow> hm_state \<Rightarrow> export_result" where
  "export_history py_str path io_ok st =
     (if path = [] then Cancelled
      else if \<not> io_ok then ExportFailed
      else
        (case py_iter (history st) of
           Inl e \<Rightarrow> ExportFailed
         | Inr items \<Rightarrow>
             (case export_text py_str items of
                Inl e \<Rightarrow> ExportFailed
              | Inr text \<Rightarrow> Exported text)))"

subsection \<open>\<open>show_more_history\<close>, \<open>clear_history\<close>, \<open>add_to_history\<close>\<close>

definition show_more_history :: "hm_state \<Rightarrow> py_error + hm_state" where
  "show_more_history st =
     refresh_history_list (st\<lparr>display_count := display_count st + MAX_VISIBLE\<rparr>)"

text \<open>
  \<open>confirmed\<close> is the answer to the question box, \<open>reply == QMessageBox.Yes\<close>; building the
  box (its texts come from \<open>self.translations\<close>) is left out.
\<close>

definition clear_history :: "write_result \<Rightarrow> bool \<Rightarrow> hm_state \<Rightarrow> py_error + hm_state" where
  "clear_history w confirmed st =
     (if confirmed then refresh_history_list (save_history w (st\<lparr>history := PList []\<rparr>))
      else Inr st)"

text \<open>Only a list has \<open>append\<close>.\<close>

definition add_to_history ::
    "write_result \<Rightarrow> pyval \<Rightarrow> pyval \<Rightarrow> hm_state \<Rightarrow> py_error + hm_state" where
  "add_to_history w url status st =
     (case history st of
        PList hs \<Rightarrow>
          (let hs' = hs @ [PDict [(''url'', url), (''status'', status)]];
               st1 = save_history w (st\<lparr>history := PList hs'\<rparr>);
               st2 = st1\<lparr>display_count := min (display_count st1 + 1) (int (length hs'))\<rparr>
           in refresh_history_list st2)
      | _ \<Rightarrow> Inl AttributeError)"

subsection \<open>Records\<close>

text \<open>The dict that \<open>add_to_history\<close> appends: \<open>{"url": url, "status": status}\<close>.\<close>

definition mk_record :: "string \<Rightarrow> string \<Rightarrow> pyval" where
  "mk_record u s = PDict [(''url'', PStr u), (''status'', PStr s)]"

text \<open>
  A history record: a dict whose \<open>url\<close> and \<open>status\<close>, where present, are strings.
\<close>

definition str_or_absent :: "(string \<times> pyval) list \<Rightarrow> string \<Rightarrow> bool" where
  "str_or_absent d k = (case map_of d k of None \<Rightarrow> True | Some (PStr s) \<Rightarrow> True | Some _ \<Rightarrow> False)"

fun is_record :: "pyval \<Rightarrow> bool" where
  "is_record (PDict d) = (str_or_absent d ''url'' \<and> str_or_absent d ''status'')"
| "is_record _ = False"

text \<open>The text of a field as the table and the export show it: empty when it is absent.\<close>

fun field_text :: "pyval \<Rightarrow> string \<Rightarrow> string" where
  "field_text (PDict d) k = (case map_of d k of Some (PStr s) \<Rightarrow> s | _ \<Rightarrow> '''')"
| "field_text _ k = ''''"

text \<open>The pair that identifies a record for deletion: \<open>(h.get("url"), h.get("status"))\<close>.\<close>

fun url_status :: "pyval \<Rightarrow> pyval \<times> pyval" where
  "url_status (PDict d) =
     ((case map_of d ''url'' of None \<Rightarrow> PNone | Some v \<Rightarrow> v),
      (case map_of d ''status'' of None \<Rightarrow> PNone | Some v \<Rightarrow> v))"
| "url_status _ = (PNone, PNone)"

text \<open>
  Whether a record passes the search filter: the query is a substring of its url or of its
  status, both in lower case.
\<close>

definition record_matches :: "string \<Rightarrow> pyval \<Rightarrow> bool" where
  "record_matches query h =
     (sublist query (lower (field_text h ''url'')) \<or>
      sublist query (lower (field_text h ''status'')))"

text \<open>The row of the table that shows a record.\<close>

definition row_of :: "pyval \<Rightarrow> pyval \<times> pyval" where
  "row_of h = (PStr (field_text h ''url''), PStr (field_text h ''status''))"

text \<open>
  The fields as \<open>__init__\<close> leaves them before it calls \<open>load_history\<close>, beside a history
  file \<open>f\<close>: an empty history, the first page, an empty search bar and an empty table.
\<close>

definition init_fields :: "backing \<Rightarrow> hm_state" where
  "init_fields f =
     \<lparr>history = PList [], display_count = MAX_VISIBLE, search_bar_text = '''',
      table_rows = [], empty_label_visible = False, load_more_visible = False,
      history_file = f\<rparr>"



text \<open>The block that \<open>export_history\<close> writes for a record.\<close>

definition block_of :: "pyval \<Rightarrow> string" where
  "block_of h =
     ''URL: '' @ field_text h ''url'' @ [CHR 0x0A] @
     ''Status: '' @ field_text h ''status'' @ [CHR 0x0A, CHR 0x0A]"

text \<open>
  The values of \<open>display_count\<close> that the methods produce: never negative, and zero only
  beside an empty history.
\<close>

definition count_ok :: "hm_state \<Rightarrow> bool" where
  "count_ok st = (0 \<le> display_count st \<and> (display_count st = 0 \<longrightarrow> history st = PList []))"

section \<open>Properties\<close>

subsection \<open>Records in the filter, the table and the view\<close>

lemma item_matches_record:
  "is_record h \<Longrightarrow> item_matches q h = Inr (record_matches q h)"
  by (cases h)
     (auto simp: item_matches_def record_matches_def str_or_absent_def
           split: option.splits pyval.splits)

lemma filter_items_records:
  "list_all is_record hs \<Longrightarrow> filter_items q hs = Inr (filter (record_matches q) hs)"
  by (induction hs) (simp_all add: item_matches_record)

lemma render_rows_records:
  "list_all is_record hs \<Longrightarrow> render_rows hs = Inr (map row_of hs)"
proof (induction hs)
  case Nil
  show ?case by simp
next
  case (Cons h hs)
  then obtain d where d: "h = PDict d" "str_or_absent d ''url''" "str_or_absent d ''status''"
    by (cases h) auto
  from d(2,3) have "dict_get h ''url'' (PStr '''') = Inr (PStr (field_text h ''url''))"
    and "dict_get h ''status'' (PStr '''') = Inr (PStr (field_text h ''status''))"
    by (auto simp: d(1) str_or_absent_def split: option.splits pyval.splits)
  with Cons show ?case by (simp add: row_of_def)
qed

lemma record_matches_empty: "record_matches [] h"
  by (simp add: record_matches_def)

lemma py_slice_last_zero: "py_slice_last 0 xs = xs"
  by (simp add: py_slice_last_def)

lemma py_slice_last_pos: "0 < n \<Longrightarrow> py_slice_last n xs = drop (length xs - nat n) xs"
  by (auto simp: py_slice_last_def Let_def max_def nat_diff_distrib' intro: arg_cong2[where f=drop])

lemma set_py_slice_last: "set (py_slice_last n xs) \<subseteq> set xs"
  by (auto simp: py_slice_last_def Let_def dest: in_set_dropD)

lemma list_all_page:
  "list_all is_record hs \<Longrightarrow> list_all is_record (rev (py_slice_last n hs))"
  using set_py_slice_last[of n hs] by (auto simp: list_all_iff)

lemma show_items_records:
  assumes "history st = PList hs" and "list_all is_record hs"
  shows "show_items st =
           Inr (filter (record_matches (lower (strip (search_bar_text st))))
                  (rev (py_slice_last (display_count st) hs)))"
proof -
  let ?q = "lower (strip (search_bar_text st))"
  let ?page = "rev (py_slice_last (display_count st) hs)"
  have rec: "list_all is_record ?page" using assms(2) by (rule list_all_page)
  show ?thesis
  proof (cases "?q = []")
    case True
    then show ?thesis
      by (simp add: show_items_def assms(1) record_matches_empty)
  next
    case False
    then show ?thesis
      using filter_items_records[OF rec, of ?q]
      by (simp add: show_items_def assms(1) Let_def)
  qed
qed

lemma list_all_view:
  assumes "history st = PList hs" and "list_all is_record hs" and "show_items st = Inr view"
  shows "list_all is_record view" and "set view \<subseteq> set hs"
proof -
  have v: "view = filter (record_matches (lower (strip (search_bar_text st))))
                  (rev (py_slice_last (display_count st) hs))"
    using show_items_records[OF assms(1,2)] assms(3) by simp
  show "set view \<subseteq> set hs" using set_py_slice_last[of "display_count st" hs] by (auto simp: v)
  then show "list_all is_record view" using assms(2) by (auto simp: list_all_iff)
qed

lemma refresh_records:
  assumes "history st = PList hs" and "list_all is_record hs" and "show_items st = Inr view"
  shows "refresh_history_list st =
           Inr (if view = [] then
                  st\<lparr>table_rows := [], empty_label_visible := True, load_more_visible := False\<rparr>
                else
                  st\<lparr>table_rows := map row_of view, empty_label_visible := False,
                     load_more_visible :=
                       (display_count st < int (length hs) \<and>
                        lower (strip (search_bar_text st)) = [])\<rparr>)"
  using render_rows_records[OF list_all_view(1)[OF assms]]
  by (simp add: refresh_history_list_def assms(1,3) Let_def)

lemma strip_empty_iff: "strip t = [] \<longleftrightarrow> list_all is_space t"
proof
  assume "strip t = []"
  then have a: "\<forall>c\<in>set (dropWhile is_space t). is_space c"
    by (simp add: strip_def dropWhile_eq_Nil_conv)
  have "dropWhile is_space t = []"
  proof (rule ccontr)
    assume n: "dropWhile is_space t \<noteq> []"
    then have "\<not> is_space (hd (dropWhile is_space t))" by (rule hd_dropWhile)
    with a n show False by simp
  qed
  then show "list_all is_space t" by (simp add: dropWhile_eq_Nil_conv list_all_iff)
next
  assume "list_all is_space t"
  then show "strip t = []"
    by (auto simp: strip_def list_all_iff dest: set_dropWhileD)
qed

lemma lower_empty_iff: "lower s = [] \<longleftrightarrow> s = []"
  by (simp add: lower_def)

lemma show_items_cong:
  "history a = history b \<Longrightarrow> display_count a = display_count b \<Longrightarrow>
   lower (strip (search_bar_text a)) = lower (strip (search_bar_text b)) \<Longrightarrow>
   show_items a = show_items b"
  by (simp add: show_items_def Let_def split: sum.splits)

lemma refresh_keeps:
  assumes "refresh_history_list st = Inr st'"
  shows "history st' = history st" "display_count st' = display_count st"
        "search_bar_text st' = search_bar_text st" "history_file st' = history_file st"
  using assms
  by (auto simp: refresh_history_list_def Let_def split: sum.splits if_splits)

lemma refresh_idem:
  assumes "refresh_history_list st = Inr st'"
  shows "refresh_history_list st' = Inr st'"
proof -
  have s: "show_items st' = show_items st"
    using refresh_keeps[OF assms] by (intro show_items_cong) simp_all
  show ?thesis
    using assms refresh_keeps[OF assms]
    by (auto simp: refresh_history_list_def s Let_def split: sum.splits if_splits)
qed

subsection \<open>Helper facts on deletion, loading and export\<close>

lemma same_url_status_records:
  "is_record h \<Longrightarrow> is_record d \<Longrightarrow> same_url_status h d = Inr (url_status h = url_status d)"
  by (cases h; cases d)
     (auto simp: same_url_status_def str_or_absent_def split: option.splits pyval.splits)

lemma pop_first_match_records:
  assumes "list_all is_record hs" and "is_record d" and "\<exists>h\<in>set hs. url_status h = url_status d"
  shows "\<exists>j<length hs. url_status (hs ! j) = url_status d \<and>
           (\<forall>k<j. url_status (hs ! k) \<noteq> url_status d) \<and>
           pop_first_match d hs = Inr (take j hs @ drop (Suc j) hs)"
  using assms
proof (induction hs)
  case Nil
  then show ?case by simp
next
  case (Cons h hs)
  have h: "same_url_status h d = Inr (url_status h = url_status d)"
    using Cons.prems by (simp add: same_url_status_records)
  show ?case
  proof (cases "url_status h = url_status d")
    case True
    then have "pop_first_match d (h # hs) = Inr (take 0 (h # hs) @ drop (Suc 0) (h # hs))"
      by (simp add: h)
    with True show ?thesis by (intro exI[of _ 0]) simp
  next
    case False
    with Cons obtain j where j: "j < length hs" "url_status (hs ! j) = url_status d"
      "\<forall>k<j. url_status (hs ! k) \<noteq> url_status d"
      "pop_first_match d hs = Inr (take j hs @ drop (Suc j) hs)"
      by auto
    have "\<forall>k<Suc j. url_status ((h # hs) ! k) \<noteq> url_status d"
      using False j(3) by (auto simp: less_Suc_eq_0_disj)
    moreover have "pop_first_match d (h # hs) = Inr (take (Suc j) (h # hs) @ drop (Suc (Suc j)) (h # hs))"
      using False by (simp add: h j(4))
    ultimately show ?thesis using j(1,2) by (intro exI[of _ "Suc j"]) simp
  qed
qed


text \<open>
  A missing file and a file that cannot be read both give the empty history on the first
  page, with the empty-state label shown.
\<close>

lemma load_history_recovers:
  assumes "history_file st = Absent \<or> history_file st = Unreadable"
  shows "load_history st =
           Inr (st\<lparr>history := PList [], display_count := MAX_VISIBLE, table_rows := [],
                  empty_label_visible := True, load_more_visible := False\<rparr>)"
proof -
  let ?st0 = "st\<lparr>history := PList [], display_count := MAX_VISIBLE\<rparr>"
  have "show_items ?st0 = Inr []"
    using show_items_records[of ?st0 "[]"] by (simp add: py_slice_last_def)
  then have "refresh_history_list ?st0 =
     Inr (?st0\<lparr>table_rows := [], empty_label_visible := True, load_more_visible := False\<rparr>)"
    by (simp add: refresh_history_list_def)
  then show ?thesis using assms by (auto simp: load_history_def)
qed

text \<open>
  With an empty search bar and a positive count, the view is the last \<open>display_count\<close>
  elements of the history, newest first.
\<close>

lemma show_items_last_records:
  assumes "history st = PList hs" and "search_bar_text st = ''''"
    and "0 < display_count st"
  shows "show_items st = Inr (rev (drop (length hs - nat (display_count st)) hs))"
  using assms by (simp add: show_items_def strip_def lower_def py_slice_last_pos)

text \<open>The search text enters the methods only as \<open>lower (strip t)\<close>.\<close>

lemma refresh_cong:
  assumes "lower (strip t) = lower (strip t')"
  shows "map_sum id (\<lambda>s. s\<lparr>search_bar_text := t'\<rparr>) (refresh_history_list (st\<lparr>search_bar_text := t\<rparr>))
         = refresh_history_list (st\<lparr>search_bar_text := t'\<rparr>)"
proof -
  have s: "show_items (st\<lparr>search_bar_text := t\<rparr>) = show_items (st\<lparr>search_bar_text := t'\<rparr>)"
    using assms by (intro show_items_cong) simp_all
  show ?thesis
    using assms by (simp add: refresh_history_list_def s Let_def split: sum.splits)
qed

lemma delete_cong:
  assumes "lower (strip t) = lower (strip t')"
  shows "map_sum id (\<lambda>s. s\<lparr>search_bar_text := t'\<rparr>) (delete_callback w i (st\<lparr>search_bar_text := t\<rparr>))
         = delete_callback w i (st\<lparr>search_bar_text := t'\<rparr>)"
proof -
  have s: "show_items (st\<lparr>search_bar_text := t\<rparr>) = show_items (st\<lparr>search_bar_text := t'\<rparr>)"
    using assms by (intro show_items_cong) simp_all
  have u: "\<And>hs' n. save_history w (st\<lparr>search_bar_text := t, history := PList hs'\<rparr>)\<lparr>display_count := n\<rparr>
      = (save_history w (st\<lparr>history := PList hs'\<rparr>)\<lparr>display_count := n\<rparr>)\<lparr>search_bar_text := t\<rparr>"
    for t by (simp add: save_history_def split: write_result.splits)
  have d: "\<And>x. display_count (save_history w x) = display_count x"
    by (simp add: save_history_def split: write_result.splits)
  show ?thesis
    using refresh_cong[OF assms]
    by (simp add: delete_callback_def s Let_def u d split: sum.splits)
qed

lemma export_block_record: "is_record h \<Longrightarrow> export_block py_str h = Inr (block_of h)"
  by (cases h)
     (auto simp: export_block_def block_of_def format_field_def str_or_absent_def
           split: option.splits pyval.splits)

lemma export_text_records:
  "list_all is_record hs \<Longrightarrow> export_text py_str hs = Inr (concat (map block_of hs))"
  by (induction hs) (simp_all add: export_block_record)

text \<open>
  The example of the specification: with the records a, b, c and the first page, deleting
  row 0 (the newest, c) leaves a and b.
\<close>

lemma delete_callback_newest_example:
  "map_sum id history
     (delete_callback Written 0
        ((init_fields Absent)\<lparr>history :=
           PList [mk_record ''a'' ''s1'', mk_record ''b'' ''s2'', mk_record ''c'' ''s3'']\<rparr>))
   = Inr (PList [mk_record ''a'' ''s1'', mk_record ''b'' ''s2''])"
  by code_simp

subsection \<open>The values of the page counter\<close>

text \<open>
  \<open>count_ok\<close> holds after \<open>__init__\<close> and after every method that returns: the count is zero
  only when a deletion has just emptied the history.
\<close>

lemma count_ok_init: "count_ok (init_fields f)"
  by (simp add: count_ok_def init_fields_def MAX_VISIBLE_def)

lemma count_ok_refresh:
  "refresh_history_list st = Inr st' \<Longrightarrow> count_ok st \<Longrightarrow> count_ok st'"
  using refresh_keeps[of st st'] by (simp add: count_ok_def)

lemma count_ok_load:
  assumes "load_history st = Inr st'"
  shows "count_ok st'"
proof -
  let ?st0 = "st\<lparr>history := (case history_file st of Holds v \<Rightarrow> v | _ \<Rightarrow> PList []),
                  display_count := MAX_VISIBLE\<rparr>"
  have "refresh_history_list ?st0 = Inr st'" using assms by (simp add: load_history_def)
  moreover have "count_ok ?st0" by (simp add: count_ok_def MAX_VISIBLE_def)
  ultimately show ?thesis by (rule count_ok_refresh)
qed

lemma count_ok_show_more:
  assumes "count_ok st" and "show_more_history st = Inr st'"
  shows "count_ok st'"
proof -
  let ?st0 = "st\<lparr>display_count := display_count st + MAX_VISIBLE\<rparr>"
  have "refresh_history_list ?st0 = Inr st'" using assms(2) by (simp add: show_more_history_def)
  moreover have "count_ok ?st0" using assms(1) by (simp add: count_ok_def MAX_VISIBLE_def)
  ultimately show ?thesis by (rule count_ok_refresh)
qed

lemma save_history_keeps:
  "history (save_history w st) = history st" "display_count (save_history w st) = display_count st"
  by (simp_all add: save_history_def split: write_result.splits)

lemma count_ok_clear:
  assumes "count_ok st" and "clear_history w c st = Inr st'"
  shows "count_ok st'"
proof (cases c)
  case False
  then show ?thesis using assms by (simp add: clear_history_def)
next
  case True
  let ?st0 = "save_history w (st\<lparr>history := PList []\<rparr>)"
  have "refresh_history_list ?st0 = Inr st'"
    using assms(2) True by (simp add: clear_history_def)
  moreover have "count_ok ?st0"
    using assms(1) by (simp add: count_ok_def save_history_keeps)
  ultimately show ?thesis by (rule count_ok_refresh)
qed

lemma count_ok_add:
  assumes "count_ok st" and "add_to_history w u s st = Inr st'"
  shows "count_ok st'"
proof -
  from assms(2) obtain hs where hs: "history st = PList hs"
    by (auto simp: add_to_history_def split: pyval.splits)
  let ?hs' = "hs @ [PDict [(''url'', u), (''status'', s)]]"
  let ?st1 = "save_history w (st\<lparr>history := PList ?hs'\<rparr>)"
  let ?st2 = "?st1\<lparr>display_count := min (display_count ?st1 + 1) (int (length ?hs'))\<rparr>"
  have "refresh_history_list ?st2 = Inr st'"
    using assms(2) by (simp add: add_to_history_def hs Let_def)
  moreover have "count_ok ?st2"
    using assms(1) by (auto simp: count_ok_def save_history_keeps min_def)
  ultimately show ?thesis by (rule count_ok_refresh)
qed

lemma count_ok_delete:
  assumes "count_ok st" and "delete_callback w i st = Inr st'"
  shows "count_ok st'"
proof -
  from assms(2) obtain view where v: "show_items st = Inr view"
    by (auto simp: delete_callback_def split: sum.splits)
  show ?thesis
  proof (cases "0 \<le> i \<and> i < int (length view)")
    case False
    then have "st' = st" using assms(2) by (auto simp: delete_callback_def v)
    then show ?thesis using assms(1) by simp
  next
    case True
    from v obtain hs where hs: "py_seq (history st) = Inr hs"
      by (cases "py_seq (history st)") (auto simp: show_items_def)
    from assms(2) True obtain hs' where p: "pop_first_match (view ! nat i) hs = Inr hs'"
      by (auto simp: delete_callback_def v hs Let_def split: sum.splits)
    let ?st1 = "save_history w (st\<lparr>history := PList hs'\<rparr>)"
    let ?st2 = "?st1\<lparr>display_count := min (display_count ?st1) (int (length hs'))\<rparr>"
    have r: "refresh_history_list ?st2 = Inr st'"
      using assms(2) True by (simp add: delete_callback_def v hs p Let_def)
    have "display_count st \<noteq> 0"
    proof
      assume "display_count st = 0"
      then have "history st = PList []" using assms(1) by (simp add: count_ok_def)
      then have "view = []"
        using v by (auto simp: show_items_def py_slice_last_def Let_def split: if_splits)
      with True show False by auto
    qed
    then have "count_ok ?st2"
      using assms(1) by (auto simp: count_ok_def save_history_keeps min_def)
    with r show ?thesis by (rule count_ok_refresh)
  qed
qed

text \<open>
  Two examples of the specification: adding to the empty store shows the one record, and
  clearing leaves an empty history, in memory and in the file.
\<close>

lemma add_to_history_example:
  "map_sum id table_rows
     (add_to_history Written (PStr ''http://x'') (PStr ''Complete!'') (init_fields Absent))
   = Inr [(PStr ''http://x'', PStr ''Complete!'')]"
  by code_simp

lemma clear_history_example:
  "clear_history Written True
     ((init_fields Absent)\<lparr>history := PList [mk_record ''a'' ''ok'']\<rparr>)
   = Inr ((init_fields (Holds (PList [])))\<lparr>empty_label_visible := True\<rparr>)"
  by code_simp

subsection \<open>Deleting a row of the view\<close>

text \<open>
  C1. For a history of records, any search text and any \<open>view_idx\<close>: when \<open>view_idx\<close> is
  within the filtered view, \<open>delete_callback\<close> removes the record of the lowest index \<open>j\<close>
  whose url and status equal those of the row (no record before \<open>j\<close> has that pair, so with
  duplicates the oldest one goes), hands the shortened list to \<open>save_history\<close> (the file holds
  it when the write succeeds), and lowers \<open>display_count\<close> to the minimum of itself and the
  new length. When \<open>view_idx\<close> is outside the view, the state is unchanged.
\<close>

theorem delete_callback_removes_first_match:
  assumes "history st = PList hs" and "list_all is_record hs"
  shows "\<exists>view. show_items st = Inr view \<and>
           (if 0 \<le> i \<and> i < int (length view) then
              \<exists>j st'. j < length hs \<and>
                url_status (hs ! j) = url_status (view ! nat i) \<and>
                (\<forall>k<j. url_status (hs ! k) \<noteq> url_status (view ! nat i)) \<and>
                delete_callback w i st = Inr st' \<and>
                history st' = PList (take j hs @ drop (Suc j) hs) \<and>
                history_file st' =
                  (case w of Written \<Rightarrow> Holds (PList (take j hs @ drop (Suc j) hs))
                   | WriteFailed left \<Rightarrow> left) \<and>
                display_count st' = min (display_count st) (int (length hs) - 1)
            else delete_callback w i st = Inr st)"
proof -
  obtain view where v: "show_items st = Inr view"
    using show_items_records[OF assms] by blast
  note vw = list_all_view[OF assms v]
  show ?thesis
  proof (cases "0 \<le> i \<and> i < int (length view)")
    case False
    then show ?thesis by (auto simp: v delete_callback_def)
  next
    case True
    let ?d = "view ! nat i"
    from True have mem: "?d \<in> set view" by (simp add: nat_less_iff)
    then have rd: "is_record ?d" using vw(1) by (simp add: list_all_iff)
    have "\<exists>h\<in>set hs. url_status h = url_status ?d" using mem vw(2) by blast
    from pop_first_match_records[OF assms(2) rd this]
    obtain j where j: "j < length hs" "url_status (hs ! j) = url_status ?d"
      "\<forall>k<j. url_status (hs ! k) \<noteq> url_status ?d"
      "pop_first_match ?d hs = Inr (take j hs @ drop (Suc j) hs)"
      by blast
    let ?hs' = "take j hs @ drop (Suc j) hs"
    let ?st1 = "save_history w (st\<lparr>history := PList ?hs'\<rparr>)"
    let ?st2 = "?st1\<lparr>display_count := min (display_count ?st1) (int (length ?hs'))\<rparr>"
    have len: "int (length ?hs') = int (length hs) - 1" using j(1) by auto
    have h2: "history ?st2 = PList ?hs'" "display_count ?st1 = display_count st"
      "history_file ?st2 = (case w of Written \<Rightarrow> Holds (PList ?hs') | WriteFailed left \<Rightarrow> left)"
      by (simp_all add: save_history_def split: write_result.splits)
    have r2: "list_all is_record ?hs'"
      using assms(2) by (auto simp: list_all_iff dest: in_set_takeD in_set_dropD)
    obtain view2 where v2: "show_items ?st2 = Inr view2"
      using show_items_records[OF h2(1) r2] by blast
    obtain st' where st': "refresh_history_list ?st2 = Inr st'"
      using refresh_records[OF h2(1) r2 v2] by blast
    have d: "delete_callback w i st = Inr st'"
      using True st' by (simp add: delete_callback_def v assms(1) j(4) Let_def)
    note k = refresh_keeps[OF st']
    have "history st' = PList ?hs'" using k(1) h2(1) by simp
    moreover have "history_file st' = (case w of Written \<Rightarrow> Holds (PList ?hs') | WriteFailed left \<Rightarrow> left)"
      using k(4) h2(3) by simp
    moreover have "display_count st' = min (display_count st) (int (length hs) - 1)"
      using k(2) h2(2) len by simp
    ultimately show ?thesis using True v j(1,2,3) d by auto
  qed
qed

text \<open>
  The theorem at the history a, b, a (the two a equal) with row 0 of the unfiltered view,
  which shows the newest record, the second a: the first a is removed, the file holds
  b, a, and the count drops from 15 to 2.
\<close>

theorem delete_callback_removes_first_match_witness:
  "\<exists>st'. delete_callback Written 0
            ((init_fields Absent)\<lparr>history :=
               PList [mk_record ''a'' ''ok'', mk_record ''b'' ''ok'', mk_record ''a'' ''ok'']\<rparr>)
          = Inr st' \<and>
        history st' = PList [mk_record ''b'' ''ok'', mk_record ''a'' ''ok''] \<and>
        history_file st' = Holds (PList [mk_record ''b'' ''ok'', mk_record ''a'' ''ok'']) \<and>
        display_count st' = 2"
proof -
  let ?hs = "[mk_record ''a'' ''ok'', mk_record ''b'' ''ok'', mk_record ''a'' ''ok'']"
  let ?st = "(init_fields Absent)\<lparr>history := PList ?hs\<rparr>"
  have h1: "history ?st = PList ?hs" by simp
  have h2: "list_all is_record ?hs" by (simp add: mk_record_def str_or_absent_def)
  have v: "show_items ?st = Inr [mk_record ''a'' ''ok'', mk_record ''b'' ''ok'', mk_record ''a'' ''ok'']"
    by code_simp
  from delete_callback_removes_first_match[OF h1 h2, of 0 Written] v
  obtain j st' where j: "j < length ?hs"
      "\<forall>k<j. url_status (?hs ! k) \<noteq> url_status (mk_record ''a'' ''ok'')"
    and d: "delete_callback Written 0 ?st = Inr st'"
      "history st' = PList (take j ?hs @ drop (Suc j) ?hs)"
      "history_file st' = Holds (PList (take j ?hs @ drop (Suc j) ?hs))"
      "display_count st' = min (display_count ?st) (int (length ?hs) - 1)"
    by auto
  have "j = 0"
  proof (rule ccontr)
    assume "j \<noteq> 0"
    then have "0 < j" by simp
    with j(2) show False by auto
  qed
  with d show ?thesis by (simp add: init_fields_def MAX_VISIBLE_def)
qed

subsection \<open>The page of an empty search\<close>


text \<open>The same state through \<open>refresh_history_list\<close>: the table shows the record.\<close>

lemma refresh_zero_count_example:
  "refresh_history_list
     ((init_fields Absent)\<lparr>history := PList [mk_record ''a'' ''ok''], display_count := 0\<rparr>)
   = Inr ((init_fields Absent)\<lparr>history := PList [mk_record ''a'' ''ok''], display_count := 0,
        table_rows := [(PStr ''a'', PStr ''ok'')], load_more_visible := True\<rparr>)"
  by code_simp

subsection \<open>The load-more button\<close>

text \<open>
  C3, as the claim states it, fails: with two records, \<open>display_count = 1\<close> and the search
  text of one blank, the button is shown, although the search text is not the empty
  string.
\<close>

theorem load_more_whitespace_search_counterexample:
  "refresh_history_list
     ((init_fields Absent)\<lparr>history := PList [mk_record ''a'' ''ok'', mk_record ''b'' ''ok''],
        display_count := 1, search_bar_text := '' ''\<rparr>)
   = Inr ((init_fields Absent)\<lparr>history := PList [mk_record ''a'' ''ok'', mk_record ''b'' ''ok''],
        display_count := 1, search_bar_text := '' '',
        table_rows := [(PStr ''b'', PStr ''ok'')], load_more_visible := True\<rparr>)"
  by code_simp

text \<open>
  C3, amended. For a history of records and a non-negative \<open>display_count\<close>,
  \<open>refresh_history_list\<close> returns, and it shows the load-more button exactly when
  \<open>display_count < len(history)\<close> and the search text consists of whitespace only (the
  empty text included); so the button is hidden for every search text that has a
  character other than whitespace.
\<close>

theorem load_more_visible_iff:
  assumes "history st = PList hs" and "list_all is_record hs" and "0 \<le> display_count st"
  shows "\<exists>st'. refresh_history_list st = Inr st' \<and>
           (load_more_visible st' \<longleftrightarrow>
              display_count st < int (length hs) \<and> list_all is_space (search_bar_text st))"
proof -
  let ?q = "lower (strip (search_bar_text st))"
  let ?page = "rev (py_slice_last (display_count st) hs)"
  have v: "show_items st = Inr (filter (record_matches ?q) ?page)"
    using assms(1,2) by (rule show_items_records)
  have q: "?q = [] \<longleftrightarrow> list_all is_space (search_bar_text st)"
    by (simp add: lower_empty_iff strip_empty_iff)
  show ?thesis
  proof (cases "filter (record_matches ?q) ?page = []")
    case False
    then show ?thesis
      using refresh_records[OF assms(1,2) v] q by simp
  next
    case True
    have "\<not> (display_count st < int (length hs) \<and> ?q = [])"
    proof
      assume a: "display_count st < int (length hs) \<and> ?q = []"
      then have "?page = []" using True by (simp add: record_matches_empty)
      then have "py_slice_last (display_count st) hs = []" by simp
      moreover have "hs \<noteq> []" using a assms(3) by auto
      ultimately show False
        using assms(3) a
        by (cases "display_count st = 0") (auto simp: py_slice_last_zero py_slice_last_pos)
    qed
    then show ?thesis
      using refresh_records[OF assms(1,2) v] True q by simp
  qed
qed

theorem load_more_visible_iff_witness:
  "\<exists>st'. refresh_history_list
            ((init_fields Absent)\<lparr>history := PList [mk_record ''a'' ''ok'', mk_record ''b'' ''ok''],
               display_count := 1, search_bar_text := '' ''\<rparr>) = Inr st' \<and>
         load_more_visible st'"
proof -
  let ?hs = "[mk_record ''a'' ''ok'', mk_record ''b'' ''ok'']"
  let ?st = "(init_fields Absent)\<lparr>history := PList ?hs, display_count := 1, search_bar_text := '' ''\<rparr>"
  have h1: "history ?st = PList ?hs" by simp
  have h2: "list_all is_record ?hs" by (simp add: mk_record_def str_or_absent_def)
  have h3: "0 \<le> display_count ?st" by simp
  have "list_all is_space (search_bar_text ?st)" by (simp add: is_space_def)
  with load_more_visible_iff[OF h1 h2 h3] show ?thesis by auto
qed

subsection \<open>What \<open>load_history\<close> stores\<close>


text \<open>The state after that load: the object is stored as it is; its row shows an empty url.\<close>

lemma load_history_missing_url_example:
  "load_history (init_fields (Holds (PList [PDict [(''status'', PStr ''ok'')]])))
   = Inr ((init_fields (Holds (PList [PDict [(''status'', PStr ''ok'')]])))
        \<lparr>history := PList [PDict [(''status'', PStr ''ok'')]],
         table_rows := [(PStr '''', PStr ''ok'')]\<rparr>)"
  by code_simp



subsection \<open>Faults of \<open>load_history\<close>\<close>

text \<open>
  C5. The claim asks that no operation faults, whatever the file holds. A file that holds
  the JSON number 5 is read without an exception, \<open>self.history\<close> becomes 5, and the slice
  in \<open>refresh_history_list\<close> raises \<open>TypeError\<close> out of \<open>load_history\<close>.
\<close>

theorem load_history_faults_on_number:
  "load_history (init_fields (Holds (PNum 5))) = Inl TypeError"
  by (simp add: load_history_def init_fields_def refresh_history_list_def show_items_def)

subsection \<open>The search filter\<close>

text \<open>
  C6, as the claim states it, fails: with the search text of one blank the record with
  url a and status ok is returned, and the blank, in lower case, is a substring neither of
  the url nor of the status.
\<close>

theorem show_items_unstripped_query_counterexample:
  "show_items ((init_fields Absent)\<lparr>history := PList [mk_record ''a'' ''ok''],
                                       search_bar_text := '' ''\<rparr>)
     = Inr [mk_record ''a'' ''ok'']
   \<and> \<not> sublist (lower '' '') (lower ''a'') \<and> \<not> sublist (lower '' '') (lower ''ok'')"
  by code_simp

text \<open>
  C6, amended. For a history of records, every search text \<open>q\<close> and every \<open>display_count\<close>,
  the view is returned, its records stand in the order they have in the reversed page,
  and each of them has \<open>q.strip().lower()\<close> as a substring of its url or of its status in
  lower case.
\<close>

theorem show_items_match_stripped_query:
  assumes "history st = PList hs" and "list_all is_record hs"
  shows "\<exists>view. show_items st = Inr view \<and>
           subseq view (rev (py_slice_last (display_count st) hs)) \<and>
           (\<forall>h\<in>set view.
              sublist (lower (strip (search_bar_text st))) (lower (field_text h ''url'')) \<or>
              sublist (lower (strip (search_bar_text st))) (lower (field_text h ''status'')))"
  using show_items_records[OF assms] by (auto simp: record_matches_def)

theorem show_items_match_stripped_query_witness:
  "history ((init_fields Absent)\<lparr>history := PList [mk_record ''http://Abc'' ''ok'', mk_record ''x'' ''ok''],
                                  search_bar_text := '' aB ''\<rparr>)
     = PList [mk_record ''http://Abc'' ''ok'', mk_record ''x'' ''ok''] \<and>
   list_all is_record [mk_record ''http://Abc'' ''ok'', mk_record ''x'' ''ok''] \<and>
   show_items ((init_fields Absent)\<lparr>history := PList [mk_record ''http://Abc'' ''ok'', mk_record ''x'' ''ok''],
                                  search_bar_text := '' aB ''\<rparr>)
     = Inr [mk_record ''http://Abc'' ''ok''] \<and>
   sublist (lower (strip '' aB '')) (lower (field_text (mk_record ''http://Abc'' ''ok'') ''url''))"
proof -
  let ?hs = "[mk_record ''http://Abc'' ''ok'', mk_record ''x'' ''ok'']"
  let ?st = "(init_fields Absent)\<lparr>history := PList ?hs, search_bar_text := '' aB ''\<rparr>"
  have h1: "history ?st = PList ?hs" by simp
  have h2: "list_all is_record ?hs" by (simp add: mk_record_def str_or_absent_def)
  have v: "show_items ?st = Inr [mk_record ''http://Abc'' ''ok'']" by code_simp
  have n: "\<not> sublist (lower (strip '' aB '')) (lower (field_text (mk_record ''http://Abc'' ''ok'') ''status''))"
    by code_simp
  from show_items_match_stripped_query[OF h1 h2] v n
  have "sublist (lower (strip '' aB '')) (lower (field_text (mk_record ''http://Abc'' ''ok'') ''url''))"
    by auto
  with h1 h2 v show ?thesis by blast
qed

subsection \<open>Saving and loading\<close>




subsection \<open>Export\<close>

text \<open>
  C8. For a history of records, the text that \<open>export_history\<close> writes is the blocks of the
  records in stored order (oldest first, whatever the page and the search text), each
  block the line \<open>URL: <url>\<close>, the line \<open>Status: <status>\<close> and an empty line; when a path was
  chosen and the file can be written, that text is the exported file. For the single
  record with url a and status ok the text is \<open>URL: a\nStatus: ok\n\n\<close>.
\<close>

theorem export_history_stored_order:
  assumes "history st = PList hs" and "list_all is_record hs" and "path \<noteq> []"
  shows "export_text py_str hs =
           Inr (concat (map (\<lambda>h. ''URL: '' @ field_text h ''url'' @ [CHR 0x0A] @
                                  ''Status: '' @ field_text h ''status'' @ [CHR 0x0A, CHR 0x0A]) hs)) \<and>
         export_history py_str path True st =
           Exported (concat (map (\<lambda>h. ''URL: '' @ field_text h ''url'' @ [CHR 0x0A] @
                                      ''Status: '' @ field_text h ''status'' @ [CHR 0x0A, CHR 0x0A]) hs)) \<and>
         export_text py_str [mk_record ''a'' ''ok'']
           = Inr (''URL: a'' @ [CHR 0x0A] @ ''Status: ok'' @ [CHR 0x0A, CHR 0x0A])"
proof -
  have "export_text py_str [mk_record ''a'' ''ok'']
             = Inr (''URL: a'' @ [CHR 0x0A] @ ''Status: ok'' @ [CHR 0x0A, CHR 0x0A])"
    by (simp add: mk_record_def export_block_def format_field_def)
  moreover have "(\<lambda>h. ''URL: '' @ field_text h ''url'' @ [CHR 0x0A] @
                                      ''Status: '' @ field_text h ''status'' @ [CHR 0x0A, CHR 0x0A]) = block_of"
    by (simp add: block_of_def fun_eq_iff)
  ultimately show ?thesis
    using assms export_text_records[OF assms(2), of py_str]
    by (simp add: export_history_def)
qed

theorem export_history_stored_order_witness:
  "export_history (\<lambda>v. '''') ''out.txt'' True
     ((init_fields Absent)\<lparr>history := PList [mk_record ''a'' ''ok'', mk_record ''b'' ''x'']\<rparr>)
   = Exported (''URL: a'' @ [CHR 0x0A] @ ''Status: ok'' @ [CHR 0x0A, CHR 0x0A] @
               ''URL: b'' @ [CHR 0x0A] @ ''Status: x'' @ [CHR 0x0A, CHR 0x0A])"
proof -
  let ?hs = "[mk_record ''a'' ''ok'', mk_record ''b'' ''x'']"
  let ?st = "(init_fields Absent)\<lparr>history := PList ?hs\<rparr>"
  have h1: "history ?st = PList ?hs" by simp
  have h2: "list_all is_record ?hs" by (simp add: mk_record_def str_or_absent_def)
  have h3: "''out.txt'' \<noteq> []" by simp
  from export_history_stored_order[OF h1 h2 h3, of "\<lambda>v. ''''"] show ?thesis
    by (simp add: mk_record_def)
qed

subsection \<open>Refreshing is a read\<close>

text \<open>
  C9. When \<open>refresh_history_list\<close> returns, the history, \<open>display_count\<close>, the history file
  and the search text are as before (only the table, the label and the button are set),
  the view computed in the new state is the view of the old one, and refreshing again
  returns the same state: the second call shows what the first one showed.
\<close>

theorem refresh_history_list_pure_read:
  assumes "refresh_history_list st = Inr st'"
  shows "history st' = history st \<and> display_count st' = display_count st \<and>
         history_file st' = history_file st \<and> search_bar_text st' = search_bar_text st \<and>
         show_items st' = show_items st \<and> refresh_history_list st' = Inr st'"
proof -
  note k = refresh_keeps[OF assms]
  have "show_items st' = show_items st" using k by (intro show_items_cong) simp_all
  with k refresh_idem[OF assms] show ?thesis by simp
qed

theorem refresh_history_list_pure_read_witness:
  "\<exists>st'. refresh_history_list
           ((init_fields Absent)\<lparr>history := PList [mk_record ''a'' ''ok'', mk_record ''b'' ''x'']\<rparr>)
         = Inr st' \<and>
       history st' = PList [mk_record ''a'' ''ok'', mk_record ''b'' ''x''] \<and>
       display_count st' = MAX_VISIBLE \<and> history_file st' = Absent \<and>
       table_rows st' = [(PStr ''b'', PStr ''x''), (PStr ''a'', PStr ''ok'')] \<and>
       refresh_history_list st' = Inr st'"
proof -
  let ?hs = "[mk_record ''a'' ''ok'', mk_record ''b'' ''x'']"
  let ?st = "(init_fields Absent)\<lparr>history := PList ?hs\<rparr>"
  let ?st' = "?st\<lparr>table_rows := [(PStr ''b'', PStr ''x''), (PStr ''a'', PStr ''ok'')]\<rparr>"
  have r: "refresh_history_list ?st = Inr ?st'" by code_simp
  from refresh_history_list_pure_read[OF r] r show ?thesis by (simp add: init_fields_def)
qed

subsection \<open>The search text is stripped and put in lower case\<close>

text \<open>
  C10. Two search texts that agree after \<open>strip()\<close> and \<open>lower()\<close> give the same view, the
  same result of \<open>refresh_history_list\<close> (table, label and load-more button) and the same
  result of \<open>delete_callback\<close>, the search text itself apart. So a search text of whitespace
  only gives, for every history, count, row and write outcome, what the empty search text
  gives.
\<close>

theorem search_text_stripped_and_lowered:
  "(lower (strip t) = lower (strip t') \<longrightarrow>
      show_items (st\<lparr>search_bar_text := t\<rparr>) = show_items (st\<lparr>search_bar_text := t'\<rparr>) \<and>
      map_sum id (\<lambda>s. s\<lparr>search_bar_text := t'\<rparr>) (refresh_history_list (st\<lparr>search_bar_text := t\<rparr>))
        = refresh_history_list (st\<lparr>search_bar_text := t'\<rparr>) \<and>
      map_sum id (\<lambda>s. s\<lparr>search_bar_text := t'\<rparr>) (delete_callback w i (st\<lparr>search_bar_text := t\<rparr>))
        = delete_callback w i (st\<lparr>search_bar_text := t'\<rparr>)) \<and>
   (list_all is_space t \<longrightarrow>
      show_items (st\<lparr>search_bar_text := t\<rparr>) = show_items (st\<lparr>search_bar_text := ''''\<rparr>) \<and>
      map_sum id (\<lambda>s. s\<lparr>search_bar_text := ''''\<rparr>) (refresh_history_list (st\<lparr>search_bar_text := t\<rparr>))
        = refresh_history_list (st\<lparr>search_bar_text := ''''\<rparr>) \<and>
      map_sum id (\<lambda>s. s\<lparr>search_bar_text := ''''\<rparr>) (delete_callback w i (st\<lparr>search_bar_text := t\<rparr>))
        = delete_callback w i (st\<lparr>search_bar_text := ''''\<rparr>))"
proof -
  have g: "show_items (st\<lparr>search_bar_text := a\<rparr>) = show_items (st\<lparr>search_bar_text := b\<rparr>) \<and>
      map_sum id (\<lambda>s. s\<lparr>search_bar_text := b\<rparr>) (refresh_history_list (st\<lparr>search_bar_text := a\<rparr>))
        = refresh_history_list (st\<lparr>search_bar_text := b\<rparr>) \<and>
      map_sum id (\<lambda>s. s\<lparr>search_bar_text := b\<rparr>) (delete_callback w i (st\<lparr>search_bar_text := a\<rparr>))
        = delete_callback w i (st\<lparr>search_bar_text := b\<rparr>)"
    if e: "lower (strip a) = lower (strip b)" for a b
  proof -
    have "show_items (st\<lparr>search_bar_text := a\<rparr>) = show_items (st\<lparr>search_bar_text := b\<rparr>)"
      using e by (intro show_items_cong) simp_all
    with refresh_cong[OF e] delete_cong[OF e] show ?thesis by simp
  qed
  have w: "lower (strip t) = lower (strip '''')" if "list_all is_space t"
  proof -
    have "strip t = []" using that by (simp add: strip_empty_iff)
    moreover have "strip '''' = []" by (simp add: strip_def)
    ultimately show ?thesis by simp
  qed
  show ?thesis using g[of t t'] g[of t "''''"] w by blast
qed

text \<open>
  The theorem at the search text of a blank and a tab, over one stored record: the view
  holds the record, and deleting row 0 empties the history as it does with no search text.
\<close>

theorem search_text_stripped_and_lowered_witness:
  "list_all is_space [CHR '' '', CHR 0x09] \<and>
   show_items ((init_fields Absent)\<lparr>history := PList [mk_record ''a'' ''ok''],
                                      search_bar_text := [CHR '' '', CHR 0x09]\<rparr>)
     = Inr [mk_record ''a'' ''ok''] \<and>
   map_sum id (\<lambda>s. s\<lparr>search_bar_text := ''''\<rparr>)
     (delete_callback Written 0
        ((init_fields Absent)\<lparr>history := PList [mk_record ''a'' ''ok''],
                                search_bar_text := [CHR '' '', CHR 0x09]\<rparr>))
     = Inr ((init_fields (Holds (PList [])))\<lparr>display_count := 0, empty_label_visible := True\<rparr>)"
proof -
  let ?t = "[CHR '' '', CHR 0x09]"
  let ?st = "(init_fields Absent)\<lparr>history := PList [mk_record ''a'' ''ok'']\<rparr>"
  have h: "list_all is_space ?t" by (simp add: is_space_def)
  have e1: "show_items (?st\<lparr>search_bar_text := ''''\<rparr>) = Inr [mk_record ''a'' ''ok'']"
    by code_simp
  have e2: "delete_callback Written 0 (?st\<lparr>search_bar_text := ''''\<rparr>)
     = Inr ((init_fields (Holds (PList [])))\<lparr>display_count := 0, empty_label_visible := True\<rparr>)"
    by code_simp
  from search_text_stripped_and_lowered[of ?t "''''" ?st Written 0] h e1 e2 show ?thesis by simp
qed

end
